theory Spec2Isabelle
  imports Main "HOL-Library.Word"
begin

unbundle bit_operations_syntax

section \<open>Machine types and kernel constants\<close>

type_synonym u8 = "8 word"
type_synonym u16 = "16 word"
type_synonym u32 = "32 word"

text \<open>
  Error numbers of the kernel (\<^verbatim>\<open>errno-base.h\<close>, \<^verbatim>\<open>errno.h\<close>, which are not among the
  sources); the drivers return them negated, and nothing below depends on more than
  their being positive. Return values of type \<^verbatim>\<open>int\<close> are modelled as \<^typ>\<open>int\<close>: no
  arithmetic is done on them, so no overflow can occur.
\<close>

definition EIO :: int where
  "EIO = 5"

definition EINVAL :: int where
  "EINVAL = 22"

definition ETIME :: int where
  "ETIME = 62"

section \<open>The Wacom I2C digitizer driver\<close>

subsection \<open>Data\<close>

definition WACOM_QUERY_SIZE :: nat where
  "WACOM_QUERY_SIZE = 22"

text \<open>
  \<^verbatim>\<open>struct wacom_features\<close>. The seven \<^verbatim>\<open>int\<close> fields only ever hold values read from
  one or two bytes, so they are integers without wrap-around. \<^verbatim>\<open>fw_version\<close> is a
  \<^verbatim>\<open>char\<close>: eight bits, unsigned on the ARM target of this kernel tree.
\<close>

record wacom_features =
  x_max :: int
  y_max :: int
  pressure_max :: int
  distance_max :: int
  distance_physical_max :: int
  tilt_x_max :: int
  tilt_y_max :: int
  fw_version :: u8

text \<open>
  The key and axis codes the driver reports. \<open>KEY_RESERVED\<close> is code 0, the value the
  \<^verbatim>\<open>tool\<close> field has after \<^verbatim>\<open>kzalloc\<close> and before the first sample.
\<close>

datatype key = KEY_RESERVED | BTN_TOUCH | BTN_TOOL_PEN | BTN_TOOL_RUBBER | BTN_STYLUS | BTN_STYLUS2

datatype axis = ABS_X | ABS_Y | ABS_PRESSURE | ABS_DISTANCE | ABS_TILT_X | ABS_TILT_Y

text \<open>
  What the handler hands to the input core: \<^verbatim>\<open>input_report_key\<close> (which normalises its
  value with \<^verbatim>\<open>!!\<close>, hence a boolean), \<^verbatim>\<open>input_report_abs\<close> and \<^verbatim>\<open>input_sync\<close>.
\<close>

datatype input_event = Report_key key bool | Report_abs axis int | Sync

subsection \<open>Byte order helpers\<close>

text \<open>
  Modelled from the spec: the kernel's byte-order helpers, which are not among the
  sources. \<^verbatim>\<open>get_unaligned_le16(&p[i])\<close> and \<^verbatim>\<open>le16_to_cpup((__le16 *)&p[i])\<close> read "2
  bytes LE": the 16-bit value whose low byte is \<open>p[i]\<close> and whose high byte is
  \<open>p[i + 1]\<close>.
\<close>

definition get_unaligned_le16 :: "u8 list \<Rightarrow> nat \<Rightarrow> u16" where
  "get_unaligned_le16 p i = ucast (p ! i) OR push_bit 8 (ucast (p ! (i + 1)))"

definition le16_to_cpup :: "u8 list \<Rightarrow> nat \<Rightarrow> u16" where
  "le16_to_cpup p i = ucast (p ! i) OR push_bit 8 (ucast (p ! (i + 1)))"

subsection \<open>\<^verbatim>\<open>wacom_query_device\<close>\<close>

text \<open>
  The bus is an external collaborator. \<^verbatim>\<open>i2c_transfer\<close> is given by its outcome: the
  value it returns (a negative error number or the number of messages it executed) and
  the \<^verbatim>\<open>WACOM_QUERY_SIZE - 1\<close> bytes the second message read into \<^verbatim>\<open>data\<close>. The last
  element of the local array is never read, so \<open>data\<close> stands for these 21 bytes.
  The reset control and the debug print have no effect on the result.
\<close>

definition wacom_query_device :: "int \<times> u8 list \<Rightarrow> wacom_features \<Rightarrow> int \<times> wacom_features" where
  "wacom_query_device xfer features =
     (case xfer of (ret, data) \<Rightarrow>
        if ret < 0 then (ret, features)
        else if ret \<noteq> 2 then (- EIO, features)
        else (0, features
          \<lparr>x_max := uint (get_unaligned_le16 data 3),
           y_max := uint (get_unaligned_le16 data 5),
           pressure_max := uint (get_unaligned_le16 data 11),
           fw_version := ucast (get_unaligned_le16 data 13),
           distance_max := uint (data ! 15),
           distance_physical_max := uint (data ! 16),
           tilt_x_max := uint (get_unaligned_le16 data 17),
           tilt_y_max := uint (get_unaligned_le16 data 19)\<rparr>))"

subsection \<open>\<^verbatim>\<open>wacom_i2c_irq\<close>\<close>

text \<open>
  The fields of \<^verbatim>\<open>struct wacom_i2c\<close> that the interrupt handler reads and writes. The
  array \<^verbatim>\<open>data\<close> has \<^verbatim>\<open>WACOM_QUERY_SIZE\<close> elements.
\<close>

record wacom_i2c =
  data :: "u8 list"
  prox :: bool
  tool :: key

definition wacom_i2c_init :: wacom_i2c where
  "wacom_i2c_init = \<lparr>data = replicate WACOM_QUERY_SIZE 0, prox = False, tool = KEY_RESERVED\<rparr>"

text \<open>
  \<^verbatim>\<open>i2c_master_recv\<close> is given by its outcome as well: the value it returns (a negative
  error number, or a byte count) and the contents of the 22-byte array
  \<^verbatim>\<open>wac_i2c->data\<close> after the call. The handler returns the updated device structure and
  the calls it made to the input core, in order.
\<close>

definition wacom_i2c_irq :: "wacom_i2c \<Rightarrow> int \<times> u8 list \<Rightarrow> wacom_i2c \<times> input_event list" where
  "wacom_i2c_irq wac_i2c recv =
     (case recv of (error, buf) \<Rightarrow>
        let wac = wac_i2c\<lparr>data := buf\<rparr> in
        if error < 0 then (wac, [])
        else
          let d = data wac;
              tsw = d ! 3 AND 0x01;
              ers = d ! 3 AND 0x04;
              f1 = d ! 3 AND 0x02;
              f2 = d ! 3 AND 0x10;
              x = le16_to_cpup d 4;
              y = le16_to_cpup d 6;
              pressure = le16_to_cpup d 8;
              distance = d ! 10;
              tilt_x = le16_to_cpup d 11;
              tilt_y = le16_to_cpup d 13;
              wac1 = (if \<not> prox wac
                      then wac\<lparr>tool := (if d ! 3 AND 0x0c \<noteq> 0 then BTN_TOOL_RUBBER else BTN_TOOL_PEN)\<rparr>
                      else wac);
              wac2 = wac1\<lparr>prox := (d ! 3 AND 0x20 \<noteq> 0)\<rparr>
          in (wac2,
              [Report_key BTN_TOUCH (tsw \<noteq> 0 \<or> ers \<noteq> 0),
               Report_key (tool wac2) (prox wac2),
               Report_key BTN_STYLUS (f1 \<noteq> 0),
               Report_key BTN_STYLUS2 (f2 \<noteq> 0),
               Report_abs ABS_X (uint x),
               Report_abs ABS_Y (uint y),
               Report_abs ABS_PRESSURE (uint pressure),
               Report_abs ABS_DISTANCE (uint distance),
               Report_abs ABS_TILT_X (sint tilt_x),
               Report_abs ABS_TILT_Y (sint tilt_y),
               Sync]))"

text \<open>
  The handler run once per interrupt over a sequence of bus outcomes; the result is the
  batch of input-core calls of each interrupt.
\<close>

fun wacom_i2c_irqs :: "wacom_i2c \<Rightarrow> (int \<times> u8 list) list \<Rightarrow> input_event list list" where
  "wacom_i2c_irqs wac [] = []"
| "wacom_i2c_irqs wac (r # rs) =
     (case wacom_i2c_irq wac r of (wac', evs) \<Rightarrow> evs # wacom_i2c_irqs wac' rs)"

section \<open>The SY7636A power management chip\<close>

subsection \<open>The register map\<close>

text \<open>
  The registers the two drivers address. Their numbers come from a header that is not
  among the sources; all that is used here is that they are five different registers.
\<close>

datatype reg =
    SY7636A_REG_OPERATION_MODE_CRL
  | SY7636A_REG_VCOM_ADJUST_CTRL_L
  | SY7636A_REG_VCOM_ADJUST_CTRL_H
  | SY7636A_REG_POWER_ON_DELAY_TIME
  | SY7636A_REG_FAULT_FLAG

text \<open>
  Modelled from the spec: the register bus (\<^verbatim>\<open>regmap_read\<close>, \<^verbatim>\<open>regmap_write\<close>,
  \<^verbatim>\<open>regmap_update_bits\<close> of the kernel), which "performs addressed register reads/writes"
  and whose "failures return an error code". Registers hold eight bits
  (\<^verbatim>\<open>sy7636a_regmap_config\<close> has \<^verbatim>\<open>val_bits = 8\<close>), so a write keeps the low byte of the
  value. \<open>bus\<close> lists the outcome of the bus transactions to come, first one first:
  0 lets the transaction through, any other value is the error it fails with, and once
  the list is used up every transaction succeeds. A failed transaction changes no
  register.
\<close>

record regmap =
  regs :: "reg \<Rightarrow> u8"
  bus :: "int list"

definition bus_next :: "regmap \<Rightarrow> int \<times> regmap" where
  "bus_next m = (case bus m of [] \<Rightarrow> (0, m) | e # es \<Rightarrow> (e, m\<lparr>bus := es\<rparr>))"

definition regmap_read :: "regmap \<Rightarrow> reg \<Rightarrow> (int + u32) \<times> regmap" where
  "regmap_read m r =
     (case bus_next m of (e, m') \<Rightarrow>
        if e \<noteq> 0 then (Inl e, m') else (Inr (ucast (regs m' r)), m'))"

definition regmap_write :: "regmap \<Rightarrow> reg \<Rightarrow> u32 \<Rightarrow> int \<times> regmap" where
  "regmap_write m r v =
     (case bus_next m of (e, m') \<Rightarrow>
        if e \<noteq> 0 then (e, m') else (0, m'\<lparr>regs := (regs m')(r := ucast v)\<rparr>))"

definition regmap_update_bits :: "regmap \<Rightarrow> reg \<Rightarrow> u32 \<Rightarrow> u32 \<Rightarrow> int \<times> regmap" where
  "regmap_update_bits m r msk v =
     (case bus_next m of (e, m') \<Rightarrow>
        if e \<noteq> 0 then (e, m')
        else (0, m'\<lparr>regs := (regs m')
                 (r := ucast ((ucast (regs m' r) AND NOT msk) OR (v AND msk)))\<rparr>))"

text \<open>
  \<open>bus_ok n m\<close>: the next \<open>n\<close> bus transactions on \<open>m\<close> succeed.
\<close>

definition bus_ok :: "nat \<Rightarrow> regmap \<Rightarrow> bool" where
  "bus_ok n m = (\<forall>e \<in> set (take n (bus m)). e = 0)"

subsection \<open>The regulator driver\<close>

text \<open>
  Modelled from the spec: the mask \<^verbatim>\<open>SY7636A_OPERATION_MODE_CRL_ONOFF\<close>, "operation-mode
  register (enable bit)"; the header that places the bit is not among the sources, and
  bit 7 is taken here.
\<close>

definition SY7636A_OPERATION_MODE_CRL_ONOFF :: u32 where
  "SY7636A_OPERATION_MODE_CRL_ONOFF = 0x80"

text \<open>
  The enable register and the enable mask that \<^verbatim>\<open>struct regulator_desc desc\<close> sets.
\<close>

definition enable_reg :: reg where
  "enable_reg = SY7636A_REG_OPERATION_MODE_CRL"

definition enable_mask :: u32 where
  "enable_mask = SY7636A_OPERATION_MODE_CRL_ONOFF"

text \<open>
  Modelled from the spec: the helpers of the regulator core that the driver calls,
  \<^verbatim>\<open>regulator_enable_regmap\<close> ("issue the hardware enable write"),
  \<^verbatim>\<open>regulator_disable_regmap\<close> ("issue the hardware disable write") and
  \<^verbatim>\<open>regulator_is_enabled_regmap\<close>: they set, clear and test the enable mask in the
  enable register.
\<close>

definition regulator_enable_regmap :: "regmap \<Rightarrow> int \<times> regmap" where
  "regulator_enable_regmap m = regmap_update_bits m enable_reg enable_mask enable_mask"

definition regulator_disable_regmap :: "regmap \<Rightarrow> int \<times> regmap" where
  "regulator_disable_regmap m = regmap_update_bits m enable_reg enable_mask 0"

definition regulator_is_enabled_regmap :: "regmap \<Rightarrow> int \<times> regmap" where
  "regulator_is_enabled_regmap m =
     (case regmap_read m enable_reg of
        (Inl ret, m') \<Rightarrow> (ret, m')
      | (Inr val, m') \<Rightarrow> (if val AND enable_mask \<noteq> 0 then 1 else 0, m'))"

text \<open>
  The messages the regulator driver writes to the kernel log. The two that report a
  duration print \<^verbatim>\<open>jiffies_to_msecs(t1 - t0)\<close>; the constructor keeps the difference
  \<open>t1 - t0\<close> itself (\<^verbatim>\<open>unsigned long\<close>, 32 bits on this target).
\<close>

datatype log =
    Failed_to_read_pgood_gpio int
  | Power_good_signal_timeout u32
  | Power_good_OK u32 nat

definition sy7636a_get_vcom_voltage_mv :: "regmap \<Rightarrow> int \<times> regmap" where
  "sy7636a_get_vcom_voltage_mv m =
     (case regmap_read m SY7636A_REG_VCOM_ADJUST_CTRL_L of
        (Inl ret, m1) \<Rightarrow> (ret, m1)
      | (Inr val, m1) \<Rightarrow>
          (case regmap_read m1 SY7636A_REG_VCOM_ADJUST_CTRL_H of
             (Inl ret, m2) \<Rightarrow> (ret, m2)
           | (Inr val_h, m2) \<Rightarrow>
               (sint (((val OR push_bit 8 val_h) AND 0x1FF) * 10000), m2)))"

definition sy7636a_get_vcom_voltage_op :: "regmap \<Rightarrow> int \<times> regmap" where
  "sy7636a_get_vcom_voltage_op m = sy7636a_get_vcom_voltage_mv m"

text \<open>The sleep of 30 to 35 ms after the write takes time and changes nothing else.\<close>

definition sy7636a_disable_regulator :: "regmap \<Rightarrow> int \<times> regmap" where
  "sy7636a_disable_regulator m = regulator_disable_regmap m"

definition sy7636a_regulator_is_enabled :: "regmap \<Rightarrow> int \<times> regmap" where
  "sy7636a_regulator_is_enabled m = regulator_is_enabled_regmap m"

text \<open>
  The polling loop that \<^verbatim>\<open>sy7636a_get_status\<close> and
  \<^verbatim>\<open>sy7636a_enable_regulator_pgood\<close> both contain, with its variables \<open>wait_cnt\<close> and
  \<open>pwr_good\<close>. \<open>gpio n\<close> is what the \<open>n\<close>-th call of \<^verbatim>\<open>gpiod_get_value_cansleep\<close>
  returns (each pass of the loop makes one call). The loop is left in one of two ways:
  by the error exit taken on a negative read, or past its end (after \<^verbatim>\<open>break\<close>, or with
  the budget used up), where the values of \<open>pwr_good\<close> and \<open>wait_cnt\<close> are handed on.
\<close>

datatype poll = Gpio_error int | Loop_end int nat

function pgood_poll :: "(nat \<Rightarrow> int) \<Rightarrow> nat \<Rightarrow> nat \<Rightarrow> int \<Rightarrow> poll" where
  "pgood_poll gpio wait_time wait_cnt pwr_good =
     (if wait_cnt < wait_time then
        (if gpio wait_cnt < 0 then Gpio_error (gpio wait_cnt)
         else if gpio wait_cnt \<noteq> 0 then Loop_end (gpio wait_cnt) wait_cnt
         else pgood_poll gpio wait_time (Suc wait_cnt) (gpio wait_cnt))
      else Loop_end pwr_good wait_cnt)"
  by pat_completeness auto
termination
  by (relation "measure (\<lambda>(gpio, wait_time, wait_cnt, pwr_good). wait_time - wait_cnt)") auto

definition sy7636a_get_status :: "(nat \<Rightarrow> int) \<Rightarrow> int \<times> log list" where
  "sy7636a_get_status gpio =
     (case pgood_poll gpio 500 0 0 of
        Gpio_error pwr_good \<Rightarrow> (pwr_good, [Failed_to_read_pgood_gpio pwr_good])
      | Loop_end pwr_good wait_cnt \<Rightarrow> (0, []))"

text \<open>
  \<open>t0\<close> and \<open>t1\<close> are the two readings of \<^verbatim>\<open>jiffies\<close>. The result is the value returned,
  the register map afterwards and the messages logged.
\<close>

definition sy7636a_enable_regulator_pgood ::
  "regmap \<Rightarrow> (nat \<Rightarrow> int) \<Rightarrow> u32 \<Rightarrow> u32 \<Rightarrow> int \<times> regmap \<times> log list" where
  "sy7636a_enable_regulator_pgood m gpio t0 t1 =
     (case regulator_enable_regmap m of (ret, m1) \<Rightarrow>
        if ret \<noteq> 0 then (ret, m1, [])
        else
          (case pgood_poll gpio 500 0 0 of
             Gpio_error pwr_good \<Rightarrow> (pwr_good, m1, [Failed_to_read_pgood_gpio pwr_good])
           | Loop_end pwr_good wait_cnt \<Rightarrow>
               if pwr_good = 0 then
                 (case sy7636a_disable_regulator m1 of (r, m2) \<Rightarrow>
                    (- ETIME, m2, [Power_good_signal_timeout (t1 - t0)]))
               else (0, m1, [Power_good_OK (t1 - t0) wait_cnt])))"

definition sy7636a_regulator_init :: "regmap \<Rightarrow> int \<times> regmap" where
  "sy7636a_regulator_init m = regmap_write m SY7636A_REG_POWER_ON_DELAY_TIME 0x0"

subsection \<open>The multi-function device driver\<close>

definition states :: "string list" where
  "states =
     [''no fault event'',
      ''UVP at VP rail'',
      ''UVP at VN rail'',
      ''UVP at VPOS rail'',
      ''UVP at VNEG rail'',
      ''UVP at VDDH rail'',
      ''UVP at VEE rail'',
      ''SCP at VP rail'',
      ''SCP at VN rail'',
      ''SCP at VPOS rail'',
      ''SCP at VNEG rail'',
      ''SCP at VDDH rail'',
      ''SCP at VEE rail'',
      ''SCP at V COM rail'',
      ''UVLO'',
      ''Thermal shutdown'']"

definition get_vcom_voltage_mv :: "regmap \<Rightarrow> int \<times> regmap" where
  "get_vcom_voltage_mv m =
     (case regmap_read m SY7636A_REG_VCOM_ADJUST_CTRL_L of
        (Inl ret, m1) \<Rightarrow> (ret, m1)
      | (Inr val, m1) \<Rightarrow>
          (case regmap_read m1 SY7636A_REG_VCOM_ADJUST_CTRL_H of
             (Inl ret, m2) \<Rightarrow> (ret, m2)
           | (Inr val_h, m2) \<Rightarrow>
               (sint (((val OR push_bit 8 val_h) AND 0x1FF) * 10), m2)))"

text \<open>
  \<open>vcom\<close> is an \<^verbatim>\<open>unsigned int\<close>, so the test \<^verbatim>\<open>vcom < 0\<close> of the source is never true;
  it is kept as the comparison of the unsigned value with 0.
\<close>

definition set_vcom_voltage_mv :: "regmap \<Rightarrow> u32 \<Rightarrow> int \<times> regmap" where
  "set_vcom_voltage_mv m vcom =
     (if vcom < 0 \<or> vcom > 5000 then (- EINVAL, m)
      else
        let val = (vcom div 10) AND 0x1ff in
        (case regmap_write m SY7636A_REG_VCOM_ADJUST_CTRL_L val of (ret, m1) \<Rightarrow>
           if ret \<noteq> 0 then (ret, m1)
           else
             (case regmap_write m1 SY7636A_REG_VCOM_ADJUST_CTRL_H (drop_bit 8 val) of (ret, m2) \<Rightarrow>
                if ret \<noteq> 0 then (ret, m2) else (0, m2))))"

text \<open>
  The \<^verbatim>\<open>show\<close> functions of the sysfs attributes fill a page with \<^verbatim>\<open>snprintf\<close> and return
  the number of characters, or a negative error. The model returns the error (\<open>Inl\<close>)
  or the text written (\<open>Inr\<close>), whose length is the value returned; all the texts are
  far shorter than a page. Messages to the kernel log are left out.
\<close>

definition state_show :: "regmap \<Rightarrow> (int + string) \<times> regmap" where
  "state_show m =
     (case regmap_read m SY7636A_REG_FAULT_FLAG of
        (Inl ret, m') \<Rightarrow> (Inl ret, m')
      | (Inr val0, m') \<Rightarrow>
          let val = drop_bit 1 val0 in
          if unat val \<ge> length states then (Inl (- EINVAL), m')
          else (Inr (states ! unat val @ [CHR 0x0A]), m'))"

definition powergood_show :: "regmap \<Rightarrow> (int + string) \<times> regmap" where
  "powergood_show m =
     (case regmap_read m SY7636A_REG_FAULT_FLAG of
        (Inl ret, m') \<Rightarrow> (Inl ret, m')
      | (Inr val0, m') \<Rightarrow>
          let val = val0 AND 0x01 in
          (Inr ((if val \<noteq> 0 then ''ON'' else ''OFF'') @ [CHR 0x0A]), m'))"

text \<open>
  \<^verbatim>\<open>vcom_show\<close> prints the negated voltage in decimal; the model returns the number
  printed. \<^verbatim>\<open>vcom_store\<close> parses its text with \<^verbatim>\<open>kstrtoint\<close>, given here by its
  outcome: the error it returns, or the \<^verbatim>\<open>int\<close> it parsed. \<open>count\<close> is the length of
  the text.
\<close>

definition vcom_show :: "regmap \<Rightarrow> (int + int) \<times> regmap" where
  "vcom_show m =
     (case get_vcom_voltage_mv m of (ret, m') \<Rightarrow>
        if ret < 0 then (Inl ret, m') else (Inr (- ret), m'))"

definition vcom_store :: "regmap \<Rightarrow> int + int \<Rightarrow> int \<Rightarrow> int \<times> regmap" where
  "vcom_store m parsed count =
     (case parsed of
        Inl ret \<Rightarrow> (ret, m)
      | Inr vcom \<Rightarrow>
          if vcom > 0 \<or> vcom < - 5000 then (- EINVAL, m)
          else
            (case set_vcom_voltage_mv m (word_of_int (- vcom)) of (ret, m') \<Rightarrow>
               if ret \<noteq> 0 then (ret, m') else (count, m')))"

section \<open>Properties of the digitizer driver\<close>

subsection \<open>Little-endian fields\<close>

lemma uint_u8_bound: "0 \<le> uint (x :: u8) \<and> uint x < 256"
  using uint_lt2p [of x] by simp

lemma uint_get_unaligned_le16:
  "uint (get_unaligned_le16 p i) = uint (p ! i) + 256 * uint (p ! (i + 1))"
proof -
  have disj: "\<And>n. \<not> bit (ucast (p ! i) :: u16) n \<or>
                  \<not> bit (push_bit 8 (ucast (p ! (i + 1))) :: u16) n"
    by (auto simp: bit_simps dest: bit_imp_le_length)
  have "uint (get_unaligned_le16 p i) =
        uint ((ucast (p ! i) :: u16) + push_bit 8 (ucast (p ! (i + 1))))"
    unfolding get_unaligned_le16_def by (subst disjunctive_add [symmetric, OF disj]) simp
  also have "\<dots> = (uint (p ! i) + uint (p ! Suc i) * 256 mod 65536) mod 65536"
    by (simp add: uint_word_ariths uint_up_ucast is_up push_bit_eq_mult)
  also have "\<dots> = uint (p ! i) + 256 * uint (p ! (i + 1))"
    using uint_u8_bound [of "p ! i"] uint_u8_bound [of "p ! Suc i"] by simp
  finally show ?thesis .
qed

lemma low_byte_get_unaligned_le16: "(ucast (get_unaligned_le16 p i) :: u8) = p ! i"
  unfolding get_unaligned_le16_def
  by (rule bit_word_eqI) (auto simp: bit_simps)

subsection \<open>The capability query\<close>

text \<open>
  Claim C7. When the query transfer succeeds (both messages executed) with a 21-byte
  report, \<^verbatim>\<open>wacom_query_device\<close> returns 0 and fills the features from fixed offsets:
  \<open>x_max\<close>, \<open>y_max\<close>, \<open>pressure_max\<close>, \<open>tilt_x_max\<close> and \<open>tilt_y_max\<close> are the
  little-endian 16-bit fields at offsets 3, 5, 11, 17 and 19, \<open>distance_max\<close> and
  \<open>distance_physical_max\<close> the bytes at offsets 15 and 16, and \<open>fw_version\<close> is the
  16-bit field at offset 13 cut down to its low byte: its value is the field's value
  modulo 256, which is the byte at offset 13.
\<close>

theorem wacom_query_device_fields:
  assumes "length buf = WACOM_QUERY_SIZE - 1"
  shows "wacom_query_device (2, buf) f =
           (0, f\<lparr>x_max := uint (buf ! 3) + 256 * uint (buf ! 4),
                  y_max := uint (buf ! 5) + 256 * uint (buf ! 6),
                  pressure_max := uint (buf ! 11) + 256 * uint (buf ! 12),
                  fw_version := buf ! 13,
                  distance_max := uint (buf ! 15),
                  distance_physical_max := uint (buf ! 16),
                  tilt_x_max := uint (buf ! 17) + 256 * uint (buf ! 18),
                  tilt_y_max := uint (buf ! 19) + 256 * uint (buf ! 20)\<rparr>) \<and>
         fw_version (snd (wacom_query_device (2, buf) f)) = ucast (get_unaligned_le16 buf 13) \<and>
         uint (fw_version (snd (wacom_query_device (2, buf) f))) =
           (uint (buf ! 13) + 256 * uint (buf ! 14)) mod 256"
proof -
  have "(uint (buf ! 13) + 256 * uint (buf ! 14)) mod 256 = uint (buf ! 13)"
    using uint_u8_bound [of "buf ! 13"] by simp
  then show ?thesis
    by (simp add: wacom_query_device_def uint_get_unaligned_le16 low_byte_get_unaligned_le16)
qed

theorem wacom_query_device_fields_witness:
  "length [0x15, 0, 3, 0x20, 0x51, 0xA8, 0x3D, 0, 0, 0, 0, 0xFF, 0x0F, 0x34, 0x12, 0xFF,
           0x0A, 0x28, 0x23, 0x28, 0x23 :: u8] = WACOM_QUERY_SIZE - 1 \<and>
   wacom_query_device
     (2, [0x15, 0, 3, 0x20, 0x51, 0xA8, 0x3D, 0, 0, 0, 0, 0xFF, 0x0F, 0x34, 0x12, 0xFF,
          0x0A, 0x28, 0x23, 0x28, 0x23])
     \<lparr>x_max = 0, y_max = 0, pressure_max = 0, distance_max = 0, distance_physical_max = 0,
      tilt_x_max = 0, tilt_y_max = 0, fw_version = 0\<rparr> =
     (0, \<lparr>x_max = 20768, y_max = 15784, pressure_max = 4095, distance_max = 255,
          distance_physical_max = 10, tilt_x_max = 9000, tilt_y_max = 9000,
          fw_version = 0x34\<rparr>)"
proof -
  have len: "length [0x15, 0, 3, 0x20, 0x51, 0xA8, 0x3D, 0, 0, 0, 0, 0xFF, 0x0F, 0x34, 0x12,
                     0xFF, 0x0A, 0x28, 0x23, 0x28, 0x23 :: u8] = WACOM_QUERY_SIZE - 1"
    by (simp add: WACOM_QUERY_SIZE_def)
  from wacom_query_device_fields [OF len] len show ?thesis by simp
qed

subsection \<open>The interrupt handler\<close>

text \<open>
  Claim C1, as the handler implements it. For every sample the bus delivers (the read
  returned no error), the handler takes the tool from the sample's raw eraser signal
  (status byte \<open>AND 0x0c\<close> nonzero: rubber, else pen) exactly when the stored proximity
  flag is false, whether or not the sample itself is in proximity; when the stored flag
  is true the tool stays as it is, whatever the raw signal. The proximity flag then
  becomes bit 5 of the status byte, and the tool key is reported with that flag.
\<close>

theorem wacom_i2c_irq_tool_latch:
  assumes "0 \<le> error"
  shows "tool (fst (wacom_i2c_irq wac (error, buf))) =
           (if prox wac then tool wac
            else if buf ! 3 AND 0x0c \<noteq> 0 then BTN_TOOL_RUBBER else BTN_TOOL_PEN) \<and>
         prox (fst (wacom_i2c_irq wac (error, buf))) = (buf ! 3 AND 0x20 \<noteq> 0) \<and>
         snd (wacom_i2c_irq wac (error, buf)) ! 1 =
           Report_key (tool (fst (wacom_i2c_irq wac (error, buf)))) (buf ! 3 AND 0x20 \<noteq> 0)"
  using assms by (simp add: wacom_i2c_irq_def Let_def)

theorem wacom_i2c_irq_tool_latch_witness:
  "(0::int) \<le> 22 \<and>
   tool (fst (wacom_i2c_irq
      \<lparr>data = replicate 22 0, prox = True, tool = BTN_TOOL_PEN\<rparr>
      (22, [2, 0, 0, 0x24, 0, 0, 0, 0, 0, 0, 0, 0, 0, 0, 0, 0, 0, 0, 0, 0, 0, 0]))) = BTN_TOOL_PEN \<and>
   prox (fst (wacom_i2c_irq
      \<lparr>data = replicate 22 0, prox = True, tool = BTN_TOOL_PEN\<rparr>
      (22, [2, 0, 0, 0x24, 0, 0, 0, 0, 0, 0, 0, 0, 0, 0, 0, 0, 0, 0, 0, 0, 0, 0]))) \<and>
   snd (wacom_i2c_irq
      \<lparr>data = replicate 22 0, prox = True, tool = BTN_TOOL_PEN\<rparr>
      (22, [2, 0, 0, 0x24, 0, 0, 0, 0, 0, 0, 0, 0, 0, 0, 0, 0, 0, 0, 0, 0, 0, 0])) ! 1 =
     Report_key BTN_TOOL_PEN True"
proof -
  have h: "(0::int) \<le> 22" by simp
  from wacom_i2c_irq_tool_latch [OF h,
      of "\<lparr>data = replicate 22 0, prox = True, tool = BTN_TOOL_PEN\<rparr>"
         "[2, 0, 0, 0x24, 0, 0, 0, 0, 0, 0, 0, 0, 0, 0, 0, 0, 0, 0, 0, 0, 0, 0]"]
  show ?thesis by simp
qed

text \<open>
  A pen that stays out of proximity: the stored flag is false and so is bit 5 of the
  sample, yet the tool changes from pen to rubber because bit 2 is set.
\<close>

theorem wacom_i2c_irq_relatch_out_of_proximity:
  "\<not> prox \<lparr>data = replicate 22 0, prox = False, tool = BTN_TOOL_PEN\<rparr> \<and>
   [2, 0, 0, 0x04, 0, 0, 0, 0, 0, 0, 0, 0, 0, 0, 0, 0, 0, 0, 0, 0, 0, 0 :: u8] ! 3 AND 0x20 = 0 \<and>
   tool \<lparr>data = replicate 22 0, prox = False, tool = BTN_TOOL_PEN\<rparr> = BTN_TOOL_PEN \<and>
   tool (fst (wacom_i2c_irq
      \<lparr>data = replicate 22 0, prox = False, tool = BTN_TOOL_PEN\<rparr>
      (22, [2, 0, 0, 0x04, 0, 0, 0, 0, 0, 0, 0, 0, 0, 0, 0, 0, 0, 0, 0, 0, 0, 0]))) =
     BTN_TOOL_RUBBER"
  by (simp add: wacom_i2c_irq_def Let_def)

lemma uint_le16_to_cpup:
  "uint (le16_to_cpup p i) = uint (p ! i) + 256 * uint (p ! (i + 1))"
  using uint_get_unaligned_le16 [of p i]
  by (simp add: le16_to_cpup_def get_unaligned_le16_def)

text \<open>
  Claim C2, as the handler implements it. The sample buffer is a fixed array of 22
  bytes and the handler never looks at how many bytes arrived. It drops a sample, making
  no call to the input core and leaving the proximity flag and the tool as they were,
  exactly when the bus read returns a negative value. For every other return value,
  a byte count below 15 included, it decodes the array and reports the ten fields
  followed by the sync marker: the contact key (bit 0 or bit 2 of the status byte),
  the tool key with the proximity bit, the two stylus buttons (bits 1 and 4), x, y and
  pressure (unsigned 16-bit little-endian fields at offsets 4, 6 and 8), the distance
  (byte 10) and the two tilts (signed 16-bit little-endian fields at offsets 11 and 13).
\<close>

theorem wacom_i2c_irq_drops_on_bus_error_only:
  "(error < 0 \<longrightarrow>
      wacom_i2c_irq wac (error, buf) = (wac\<lparr>data := buf\<rparr>, []) \<and>
      snd (wacom_i2c_irq wac (error, buf)) = [] \<and>
      prox (fst (wacom_i2c_irq wac (error, buf))) = prox wac \<and>
      tool (fst (wacom_i2c_irq wac (error, buf))) = tool wac) \<and>
   (0 \<le> error \<longrightarrow>
      wacom_i2c_irq wac (error, buf) =
        (wac\<lparr>data := buf,
              tool := (if prox wac then tool wac
                       else if buf ! 3 AND 0x0c \<noteq> 0 then BTN_TOOL_RUBBER else BTN_TOOL_PEN),
              prox := (buf ! 3 AND 0x20 \<noteq> 0)\<rparr>,
         [Report_key BTN_TOUCH (buf ! 3 AND 0x01 \<noteq> 0 \<or> buf ! 3 AND 0x04 \<noteq> 0),
          Report_key (if prox wac then tool wac
                      else if buf ! 3 AND 0x0c \<noteq> 0 then BTN_TOOL_RUBBER else BTN_TOOL_PEN)
                     (buf ! 3 AND 0x20 \<noteq> 0),
          Report_key BTN_STYLUS (buf ! 3 AND 0x02 \<noteq> 0),
          Report_key BTN_STYLUS2 (buf ! 3 AND 0x10 \<noteq> 0),
          Report_abs ABS_X (uint (buf ! 4) + 256 * uint (buf ! 5)),
          Report_abs ABS_Y (uint (buf ! 6) + 256 * uint (buf ! 7)),
          Report_abs ABS_PRESSURE (uint (buf ! 8) + 256 * uint (buf ! 9)),
          Report_abs ABS_DISTANCE (uint (buf ! 10)),
          Report_abs ABS_TILT_X (sint (le16_to_cpup buf 11)),
          Report_abs ABS_TILT_Y (sint (le16_to_cpup buf 13)),
          Sync]) \<and>
      length (snd (wacom_i2c_irq wac (error, buf))) = 11 \<and>
      last (snd (wacom_i2c_irq wac (error, buf))) = Sync) \<and>
   (snd (wacom_i2c_irq wac (error, buf)) = []) = (error < 0)"
proof -
  have neg: "wacom_i2c_irq wac (error, buf) = (wac\<lparr>data := buf\<rparr>, [])" if "error < 0"
    using that by (simp add: wacom_i2c_irq_def)
  have pos: "wacom_i2c_irq wac (error, buf) =
        (wac\<lparr>data := buf,
              tool := (if prox wac then tool wac
                       else if buf ! 3 AND 0x0c \<noteq> 0 then BTN_TOOL_RUBBER else BTN_TOOL_PEN),
              prox := (buf ! 3 AND 0x20 \<noteq> 0)\<rparr>,
         [Report_key BTN_TOUCH (buf ! 3 AND 0x01 \<noteq> 0 \<or> buf ! 3 AND 0x04 \<noteq> 0),
          Report_key (if prox wac then tool wac
                      else if buf ! 3 AND 0x0c \<noteq> 0 then BTN_TOOL_RUBBER else BTN_TOOL_PEN)
                     (buf ! 3 AND 0x20 \<noteq> 0),
          Report_key BTN_STYLUS (buf ! 3 AND 0x02 \<noteq> 0),
          Report_key BTN_STYLUS2 (buf ! 3 AND 0x10 \<noteq> 0),
          Report_abs ABS_X (uint (buf ! 4) + 256 * uint (buf ! 5)),
          Report_abs ABS_Y (uint (buf ! 6) + 256 * uint (buf ! 7)),
          Report_abs ABS_PRESSURE (uint (buf ! 8) + 256 * uint (buf ! 9)),
          Report_abs ABS_DISTANCE (uint (buf ! 10)),
          Report_abs ABS_TILT_X (sint (le16_to_cpup buf 11)),
          Report_abs ABS_TILT_Y (sint (le16_to_cpup buf 13)),
          Sync])" if "0 \<le> error"
    using that by (simp add: wacom_i2c_irq_def Let_def uint_le16_to_cpup)
  show ?thesis
  proof (cases "error < 0")
    case True
    with neg show ?thesis by simp
  next
    case False
    then have "0 \<le> error" by simp
    from pos [OF this] False show ?thesis by simp
  qed
qed

theorem wacom_i2c_irq_drops_on_bus_error_only_witness:
  "(- 5 :: int) < 0 \<and>
   snd (wacom_i2c_irq \<lparr>data = replicate 22 0, prox = True, tool = BTN_TOOL_RUBBER\<rparr>
          (- 5, replicate 22 0)) = [] \<and>
   prox (fst (wacom_i2c_irq \<lparr>data = replicate 22 0, prox = True, tool = BTN_TOOL_RUBBER\<rparr>
          (- 5, replicate 22 0))) \<and>
   tool (fst (wacom_i2c_irq \<lparr>data = replicate 22 0, prox = True, tool = BTN_TOOL_RUBBER\<rparr>
          (- 5, replicate 22 0))) = BTN_TOOL_RUBBER \<and>
   (0 :: int) \<le> 22 \<and>
   length (snd (wacom_i2c_irq \<lparr>data = replicate 22 0, prox = True, tool = BTN_TOOL_RUBBER\<rparr>
          (22, replicate 22 0))) = 11 \<and>
   last (snd (wacom_i2c_irq \<lparr>data = replicate 22 0, prox = True, tool = BTN_TOOL_RUBBER\<rparr>
          (22, replicate 22 0))) = Sync"
proof -
  have neg: "(- 5 :: int) < 0" and pos: "(0 :: int) \<le> 22" by simp_all
  from wacom_i2c_irq_drops_on_bus_error_only
         [of "- 5" "\<lparr>data = replicate 22 0, prox = True, tool = BTN_TOOL_RUBBER\<rparr>"
             "replicate 22 0"]
       wacom_i2c_irq_drops_on_bus_error_only
         [of 22 "\<lparr>data = replicate 22 0, prox = True, tool = BTN_TOOL_RUBBER\<rparr>"
             "replicate 22 0"]
       neg pos
  show ?thesis by simp
qed

text \<open>
  A read that returns 0, no byte received: the handler still decodes the array, which
  holds the previous sample, reports all fields and changes the tool and the flag.
\<close>

theorem wacom_i2c_irq_reports_after_empty_read:
  "wacom_i2c_irq
     \<lparr>data = [2, 0, 0, 0x24, 0x10, 0x27, 0x20, 0x4E, 0xFF, 0x03, 5, 0xFE, 0xFF, 3, 0,
              0, 0, 0, 0, 0, 0, 0],
      prox = False, tool = BTN_TOOL_PEN\<rparr>
     (0, [2, 0, 0, 0x24, 0x10, 0x27, 0x20, 0x4E, 0xFF, 0x03, 5, 0xFE, 0xFF, 3, 0,
          0, 0, 0, 0, 0, 0, 0]) =
   (\<lparr>data = [2, 0, 0, 0x24, 0x10, 0x27, 0x20, 0x4E, 0xFF, 0x03, 5, 0xFE, 0xFF, 3, 0,
              0, 0, 0, 0, 0, 0, 0],
      prox = True, tool = BTN_TOOL_RUBBER\<rparr>,
    [Report_key BTN_TOUCH True, Report_key BTN_TOOL_RUBBER True,
     Report_key BTN_STYLUS False, Report_key BTN_STYLUS2 False,
     Report_abs ABS_X 10000, Report_abs ABS_Y 20000,
     Report_abs ABS_PRESSURE 1023, Report_abs ABS_DISTANCE 5,
     Report_abs ABS_TILT_X (- 2), Report_abs ABS_TILT_Y 3, Sync])"
  by (simp add: wacom_i2c_irq_def Let_def le16_to_cpup_def)

text \<open>
  Claim C5. Starting from the freshly allocated device structure, five samples that are
  out of proximity, in proximity with the eraser signal, in proximity without it, in
  proximity with it again, and out of proximity make the handler report the rubber tool
  for all three samples in proximity (and release the rubber tool at the end); four
  samples that are out of proximity, in proximity without the eraser signal, out of
  proximity, and in proximity with the eraser signal make it report the pen for the
  first session and the rubber for the second. This holds for every content of the
  other bytes and bits and every non-negative value returned by the bus read.
\<close>

theorem wacom_i2c_irqs_tool_sessions:
  assumes "0 \<le> e1" and "0 \<le> e2" and "0 \<le> e3" and "0 \<le> e4" and "0 \<le> e5"
    and "o1 ! 3 AND 0x20 = 0" and "o2 ! 3 AND 0x20 = 0"
    and "r1 ! 3 AND 0x20 \<noteq> 0" and "r1 ! 3 AND 0x0c \<noteq> 0"
    and "r2 ! 3 AND 0x20 \<noteq> 0" and "r2 ! 3 AND 0x0c \<noteq> 0"
    and "p ! 3 AND 0x20 \<noteq> 0" and "p ! 3 AND 0x0c = 0"
  shows "map (\<lambda>evs. evs ! 1)
           (wacom_i2c_irqs wacom_i2c_init [(e1, o1), (e2, r1), (e3, p), (e4, r2), (e5, o2)]) =
           [Report_key (if o1 ! 3 AND 0x0c \<noteq> 0 then BTN_TOOL_RUBBER else BTN_TOOL_PEN) False,
            Report_key BTN_TOOL_RUBBER True, Report_key BTN_TOOL_RUBBER True,
            Report_key BTN_TOOL_RUBBER True, Report_key BTN_TOOL_RUBBER False] \<and>
         map (\<lambda>evs. evs ! 1)
           (wacom_i2c_irqs wacom_i2c_init [(e1, o1), (e2, p), (e3, o2), (e4, r1)]) =
           [Report_key (if o1 ! 3 AND 0x0c \<noteq> 0 then BTN_TOOL_RUBBER else BTN_TOOL_PEN) False,
            Report_key BTN_TOOL_PEN True, Report_key BTN_TOOL_PEN False,
            Report_key BTN_TOOL_RUBBER True]"
  using assms by (simp add: wacom_i2c_irq_def Let_def wacom_i2c_init_def)

theorem wacom_i2c_irqs_tool_sessions_witness:
  "(0::int) \<le> 22 \<and>
   (replicate 22 (0::u8))[3 := 0x00] ! 3 AND 0x20 = 0 \<and>
   (replicate 22 (0::u8))[3 := 0x24] ! 3 AND 0x20 \<noteq> 0 \<and>
   (replicate 22 (0::u8))[3 := 0x24] ! 3 AND 0x0c \<noteq> 0 \<and>
   (replicate 22 (0::u8))[3 := 0x21] ! 3 AND 0x20 \<noteq> 0 \<and>
   (replicate 22 (0::u8))[3 := 0x21] ! 3 AND 0x0c = 0 \<and>
   map (\<lambda>evs. evs ! 1)
     (wacom_i2c_irqs wacom_i2c_init
        [(22, (replicate 22 0)[3 := 0x00]), (22, (replicate 22 0)[3 := 0x24]),
         (22, (replicate 22 0)[3 := 0x21]), (22, (replicate 22 0)[3 := 0x24]),
         (22, (replicate 22 0)[3 := 0x00])]) =
     [Report_key BTN_TOOL_PEN False, Report_key BTN_TOOL_RUBBER True,
      Report_key BTN_TOOL_RUBBER True, Report_key BTN_TOOL_RUBBER True,
      Report_key BTN_TOOL_RUBBER False] \<and>
   map (\<lambda>evs. evs ! 1)
     (wacom_i2c_irqs wacom_i2c_init
        [(22, (replicate 22 0)[3 := 0x00]), (22, (replicate 22 0)[3 := 0x21]),
         (22, (replicate 22 0)[3 := 0x00]), (22, (replicate 22 0)[3 := 0x24])]) =
     [Report_key BTN_TOOL_PEN False, Report_key BTN_TOOL_PEN True,
      Report_key BTN_TOOL_PEN False, Report_key BTN_TOOL_RUBBER True]"
proof -
  have e: "(0::int) \<le> 22" by simp
  have o: "(replicate 22 (0::u8))[3 := 0x00] ! 3 AND 0x20 = 0" by simp
  have r: "(replicate 22 (0::u8))[3 := 0x24] ! 3 AND 0x20 \<noteq> 0"
          "(replicate 22 (0::u8))[3 := 0x24] ! 3 AND 0x0c \<noteq> 0" by simp_all
  have p: "(replicate 22 (0::u8))[3 := 0x21] ! 3 AND 0x20 \<noteq> 0"
          "(replicate 22 (0::u8))[3 := 0x21] ! 3 AND 0x0c = 0" by simp_all
  from wacom_i2c_irqs_tool_sessions [OF e e e e e o o r r p] e o r p
  show ?thesis by simp
qed

section \<open>Properties of the regulator driver\<close>

subsection \<open>The polling loop\<close>

lemma pgood_poll_all_zero:
  "wait_cnt \<le> wait_time \<Longrightarrow> (\<forall>i. wait_cnt \<le> i \<and> i < wait_time \<longrightarrow> gpio i = 0) \<Longrightarrow>
   pgood_poll gpio wait_time wait_cnt 0 = Loop_end 0 wait_time"
proof (induction "wait_time - wait_cnt" arbitrary: wait_cnt)
  case 0
  then show ?case by simp
next
  case (Suc d)
  then have lt: "wait_cnt < wait_time" and z: "gpio wait_cnt = 0" by auto
  have "pgood_poll gpio wait_time (Suc wait_cnt) 0 = Loop_end 0 wait_time"
    using Suc by (intro Suc.hyps(1)) auto
  with lt z show ?case by (subst pgood_poll.simps) simp
qed

lemma pgood_poll_first_nonzero:
  "wait_cnt \<le> k \<Longrightarrow> k < wait_time \<Longrightarrow> (\<forall>i. wait_cnt \<le> i \<and> i < k \<longrightarrow> gpio i = 0) \<Longrightarrow>
   gpio k \<noteq> 0 \<Longrightarrow>
   pgood_poll gpio wait_time wait_cnt pwr_good =
     (if gpio k < 0 then Gpio_error (gpio k) else Loop_end (gpio k) k)"
proof (induction "k - wait_cnt" arbitrary: wait_cnt pwr_good)
  case 0
  then have "wait_cnt = k" by simp
  with 0 show ?case by (subst pgood_poll.simps) simp
next
  case (Suc d)
  then have lt: "wait_cnt < k" and z: "gpio wait_cnt = 0" by auto
  have "pgood_poll gpio wait_time (Suc wait_cnt) 0 =
          (if gpio k < 0 then Gpio_error (gpio k) else Loop_end (gpio k) k)"
    using Suc by (intro Suc.hyps(1)) auto
  with lt z Suc.prems show ?case by (subst pgood_poll.simps) simp
qed

lemma pgood_poll_Gpio_errorD:
  "pgood_poll gpio wait_time wait_cnt pwr_good = Gpio_error e \<Longrightarrow>
   \<exists>k. wait_cnt \<le> k \<and> k < wait_time \<and> gpio k = e \<and> e < 0 \<and>
       (\<forall>i. wait_cnt \<le> i \<and> i < k \<longrightarrow> gpio i = 0)"
proof (induction gpio wait_time wait_cnt pwr_good rule: pgood_poll.induct)
  case (1 gpio wait_time wait_cnt pwr_good)
  show ?case
  proof (cases "wait_cnt < wait_time \<and> gpio wait_cnt = 0")
    case True
    with "1.prems" have "pgood_poll gpio wait_time (Suc wait_cnt) (gpio wait_cnt) = Gpio_error e"
      by (subst (asm) pgood_poll.simps) simp
    with True "1.IH" obtain k where k: "Suc wait_cnt \<le> k" "k < wait_time" "gpio k = e" "e < 0"
      "\<forall>i. Suc wait_cnt \<le> i \<and> i < k \<longrightarrow> gpio i = 0" by auto
    have "\<forall>i. wait_cnt \<le> i \<and> i < k \<longrightarrow> gpio i = 0"
    proof (intro allI impI)
      fix i assume "wait_cnt \<le> i \<and> i < k"
      then show "gpio i = 0" using True k(5) by (cases "i = wait_cnt") auto
    qed
    with k show ?thesis by (intro exI [of _ k]) auto
  next
    case False
    with "1.prems" show ?thesis
      by (subst (asm) pgood_poll.simps) (auto split: if_splits intro: exI [of _ wait_cnt])
  qed
qed

subsection \<open>\<^verbatim>\<open>sy7636a_get_status\<close>\<close>

text \<open>
  Claim C10. When every read of the power-good line returns a non-negative value,
  \<^verbatim>\<open>sy7636a_get_status\<close> returns 0: it returns 0 with nothing logged both when the line
  never reads nonzero in 500 polls and when it reads positive at some poll, so the two
  cannot be told apart. When a read is negative (after reads of 0 only) that value is
  returned at once, whatever later reads would give; and a nonzero return value is always
  negative and is the value of such a failed read.
\<close>

theorem sy7636a_get_status_result:
  "((\<forall>i<500. 0 \<le> gpio i) \<longrightarrow> fst (sy7636a_get_status gpio) = 0) \<and>
   ((\<forall>i<500. gpio i = 0) \<longrightarrow> sy7636a_get_status gpio = (0, [])) \<and>
   (\<forall>k<500. 0 < gpio k \<and> (\<forall>i<k. gpio i = 0) \<longrightarrow> sy7636a_get_status gpio = (0, [])) \<and>
   (\<forall>k<500. gpio k < 0 \<and> (\<forall>i<k. gpio i = 0) \<longrightarrow>
      sy7636a_get_status gpio = (gpio k, [Failed_to_read_pgood_gpio (gpio k)])) \<and>
   (fst (sy7636a_get_status gpio) \<noteq> 0 \<longrightarrow>
      fst (sy7636a_get_status gpio) < 0 \<and>
      (\<exists>k<500. gpio k = fst (sy7636a_get_status gpio) \<and> (\<forall>i<k. gpio i = 0)))"
proof (intro conjI allI impI)
  assume nn: "\<forall>i<500. 0 \<le> gpio i"
  show "fst (sy7636a_get_status gpio) = 0"
  proof (cases "pgood_poll gpio 500 0 0")
    case (Gpio_error e)
    from pgood_poll_Gpio_errorD [OF this] nn show ?thesis by force
  next
    case (Loop_end pwr_good wait_cnt)
    then show ?thesis by (simp add: sy7636a_get_status_def)
  qed
next
  assume "\<forall>i<500. gpio i = 0"
  then have "pgood_poll gpio 500 0 0 = Loop_end 0 500"
    by (intro pgood_poll_all_zero) auto
  then show "sy7636a_get_status gpio = (0, [])" by (simp add: sy7636a_get_status_def)
next
  fix k :: nat
  assume "k < 500" and "0 < gpio k \<and> (\<forall>i<k. gpio i = 0)"
  then have "pgood_poll gpio 500 0 0 = Loop_end (gpio k) k"
    using pgood_poll_first_nonzero [of 0 k 500 gpio 0] by auto
  then show "sy7636a_get_status gpio = (0, [])" by (simp add: sy7636a_get_status_def)
next
  fix k :: nat
  assume "k < 500" and "gpio k < 0 \<and> (\<forall>i<k. gpio i = 0)"
  then have "pgood_poll gpio 500 0 0 = Gpio_error (gpio k)"
    using pgood_poll_first_nonzero [of 0 k 500 gpio 0] by auto
  then show "sy7636a_get_status gpio = (gpio k, [Failed_to_read_pgood_gpio (gpio k)])"
    by (simp add: sy7636a_get_status_def)
next
  assume nz: "fst (sy7636a_get_status gpio) \<noteq> 0"
  then obtain e where e: "pgood_poll gpio 500 0 0 = Gpio_error e"
    by (cases "pgood_poll gpio 500 0 0") (auto simp: sy7636a_get_status_def)
  then have r: "fst (sy7636a_get_status gpio) = e" by (simp add: sy7636a_get_status_def)
  from pgood_poll_Gpio_errorD [OF e] r
  show "fst (sy7636a_get_status gpio) < 0" by auto
  from pgood_poll_Gpio_errorD [OF e] r
  show "\<exists>k<500. gpio k = fst (sy7636a_get_status gpio) \<and> (\<forall>i<k. gpio i = 0)" by auto
qed

theorem sy7636a_get_status_result_witness:
  "sy7636a_get_status (\<lambda>n. 0) = (0, []) \<and>
   sy7636a_get_status (\<lambda>n. if n = 7 then 1 else 0) = (0, []) \<and>
   sy7636a_get_status (\<lambda>n. if n = 7 then - 5 else 0) = (- 5, [Failed_to_read_pgood_gpio (- 5)])"
proof -
  have a: "\<forall>i<500. (\<lambda>n::nat. 0::int) i = 0" by simp
  have b: "(7::nat) < 500" "0 < (\<lambda>n::nat. if n = 7 then 1 else 0::int) 7 \<and>
     (\<forall>i<7. (\<lambda>n::nat. if n = 7 then 1 else 0::int) i = 0)" by simp_all
  have c: "(\<lambda>n::nat. if n = 7 then - 5 else 0::int) 7 < 0 \<and>
     (\<forall>i<7. (\<lambda>n::nat. if n = 7 then - 5 else 0::int) i = 0)" by simp
  from sy7636a_get_status_result [of "\<lambda>n. 0"] a
  have 1: "sy7636a_get_status (\<lambda>n. 0) = (0, [])" by blast
  from sy7636a_get_status_result [of "\<lambda>n. if n = 7 then 1 else 0"] b
  have 2: "sy7636a_get_status (\<lambda>n. if n = 7 then 1 else 0) = (0, [])" by blast
  from sy7636a_get_status_result [of "\<lambda>n. if n = 7 then - 5 else 0"] b(1) c
  have 3: "sy7636a_get_status (\<lambda>n. if n = 7 then - 5 else 0) =
             ((\<lambda>n::nat. if n = 7 then - 5 else 0::int) 7,
              [Failed_to_read_pgood_gpio ((\<lambda>n::nat. if n = 7 then - 5 else 0::int) 7)])" by blast
  from 1 2 3 show ?thesis by simp
qed

section \<open>Properties of the register-level functions\<close>

subsection \<open>Word arithmetic of the VCOM encoding\<close>

lemma x1ff: "(0x1FF :: u32) = mask 9"
  by (simp add: mask_eq_decr_exp)

lemma uint_and_1ff: "uint ((x :: u32) AND 0x1FF) < 512"
  using and_mask_lt_2p [of x 9] by (simp add: x1ff)

lemma sint_times_small:
  assumes "uint (v :: u32) < 512"
  shows "sint (v * 10000) = uint v * 10000" and "sint (v * 10) = uint v * 10"
proof -
  have lo: "(- (2 ^ 31) :: int) \<le> 0" by simp
  have "0 \<le> uint v * 10000" and "0 \<le> uint v * 10" by simp_all
  with lo have "- (2 ^ 31) \<le> uint v * 10000" and "- (2 ^ 31) \<le> uint v * 10"
    by (blast intro: order_trans)+
  moreover have "uint v * 10000 < 2 ^ 31" and "uint v * 10 < 2 ^ 31"
    using assms by simp_all
  ultimately show "sint (v * 10000) = uint v * 10000" and "sint (v * 10) = uint v * 10"
    by (simp_all add: sint_uint uint_word_ariths signed_take_bit_int_eq_self)
qed

lemma reg_pair_readback:
  "((ucast (ucast (v :: u32) :: u8) :: u32) OR
      push_bit 8 (ucast (ucast (drop_bit 8 v) :: u8))) AND 0x1FF = v AND 0x1FF"
  unfolding x1ff
proof (rule bit_word_eqI)
  fix n :: nat
  assume "n < LENGTH(32)"
  show "bit ((ucast (ucast v :: u8) OR push_bit 8 (ucast (ucast (drop_bit 8 v) :: u8))) AND
              (mask 9 :: u32)) n = bit (v AND mask 9) n"
    by (cases "n = 8") (auto simp: bit_simps)
qed

lemma small_and_1ff: "(v :: u32) \<le> 500 \<Longrightarrow> v AND 0x1FF = v"
  unfolding x1ff
  by (rule less_mask_eq) (simp add: word_le_nat_alt word_less_nat_alt)

lemma div10_le: "(vcom :: u32) \<le> 5000 \<Longrightarrow> vcom div 10 \<le> 500"
  by (simp add: word_le_nat_alt unat_div)

lemma unat_ucast_u8_u32: "unat (ucast (b::u8) :: u32) = unat b"
  by (simp add: unsigned_ucast_eq take_bit_nat_eq_self_iff unsigned_less [of b, simplified] order_less_trans [OF unsigned_less])

lemma unat_shifted: "unat (drop_bit 1 (ucast (b::u8) :: u32)) = unat b div 2"
  by (simp add: unat_drop_bit_eq unat_ucast_u8_u32 drop_bit_eq_div unat_div)

lemma and1: "((ucast (b::u8) :: u32) AND 1 \<noteq> 0) = bit b 0"
proof -
  have "((ucast b :: u32) AND 1 \<noteq> 0) = odd (ucast b :: u32)"
    by (simp add: and_one_eq odd_iff_mod_2_eq_one)
  also have "\<dots> = bit (ucast b :: u32) 0"
    by (simp only: bit_0)
  also have "\<dots> = bit b 0"
    by (simp add: bit_ucast_iff)
  finally show ?thesis .
qed

subsection \<open>Bus transactions that succeed\<close>

lemma bus_next_ok:
  "bus_ok (Suc n) m \<Longrightarrow> bus_next m = (0, m\<lparr>bus := tl (bus m)\<rparr>)"
  by (cases "bus m") (auto simp: bus_next_def bus_ok_def)

lemma bus_ok_tl:
  "bus_ok (Suc n) m \<Longrightarrow> bus_ok n (m\<lparr>bus := tl (bus m)\<rparr>)"
  "bus_ok (Suc n) m \<Longrightarrow> bus_ok n (m\<lparr>bus := tl (bus m), regs := f\<rparr>)"
  by (cases "bus m"; auto simp: bus_ok_def)+

lemma regmap_read_ok:
  "bus_ok (Suc n) m \<Longrightarrow> regmap_read m r = (Inr (ucast (regs m r)), m\<lparr>bus := tl (bus m)\<rparr>)"
  by (simp add: regmap_read_def bus_next_ok)

lemma regmap_write_ok:
  "bus_ok (Suc n) m \<Longrightarrow>
   regmap_write m r v = (0, m\<lparr>bus := tl (bus m), regs := (regs m)(r := ucast v)\<rparr>)"
  by (simp add: regmap_write_def bus_next_ok)

lemma regmap_update_bits_ok:
  "bus_ok (Suc n) m \<Longrightarrow>
   regmap_update_bits m r msk v =
     (0, m\<lparr>bus := tl (bus m),
            regs := (regs m)(r := ucast ((ucast (regs m r) AND NOT msk) OR (v AND msk)))\<rparr>)"
  by (simp add: regmap_update_bits_def bus_next_ok)

lemma get_vcom_voltage_mv_ok:
  assumes "bus_ok 2 m"
  shows "get_vcom_voltage_mv m =
           (uint ((ucast (regs m SY7636A_REG_VCOM_ADJUST_CTRL_L) OR
                   push_bit 8 (ucast (regs m SY7636A_REG_VCOM_ADJUST_CTRL_H)) :: u32) AND 0x1FF) * 10,
            m\<lparr>bus := tl (tl (bus m))\<rparr>)"
proof -
  from assms have 1: "bus_ok (Suc 1) m" by (simp add: numeral_2_eq_2)
  then have 2: "bus_ok (Suc 0) (m\<lparr>bus := tl (bus m)\<rparr>)" using bus_ok_tl(1) [of 1 m] by simp
  show ?thesis
    by (simp add: get_vcom_voltage_mv_def regmap_read_ok [OF 1] regmap_read_ok [OF 2]
        sint_times_small uint_and_1ff)
qed

lemma sy7636a_get_vcom_voltage_mv_ok:
  assumes "bus_ok 2 m"
  shows "sy7636a_get_vcom_voltage_mv m =
           (uint ((ucast (regs m SY7636A_REG_VCOM_ADJUST_CTRL_L) OR
                   push_bit 8 (ucast (regs m SY7636A_REG_VCOM_ADJUST_CTRL_H)) :: u32) AND 0x1FF) * 10000,
            m\<lparr>bus := tl (tl (bus m))\<rparr>)"
proof -
  from assms have 1: "bus_ok (Suc 1) m" by (simp add: numeral_2_eq_2)
  then have 2: "bus_ok (Suc 0) (m\<lparr>bus := tl (bus m)\<rparr>)" using bus_ok_tl(1) [of 1 m] by simp
  show ?thesis
    by (simp add: sy7636a_get_vcom_voltage_mv_def regmap_read_ok [OF 1] regmap_read_ok [OF 2]
        sint_times_small uint_and_1ff)
qed

lemma set_vcom_voltage_mv_ok:
  assumes "vcom \<le> 5000" and "bus_ok 2 m"
  shows "set_vcom_voltage_mv m vcom =
           (0, m\<lparr>bus := tl (tl (bus m)),
                  regs := (regs m)
                    (SY7636A_REG_VCOM_ADJUST_CTRL_L := ucast (vcom div 10),
                     SY7636A_REG_VCOM_ADJUST_CTRL_H := ucast (drop_bit 8 (vcom div 10)))\<rparr>)"
proof -
  from assms have 1: "bus_ok (Suc 1) m" by (simp add: numeral_2_eq_2)
  then have 2: "bus_ok (Suc 0) (m\<lparr>bus := tl (bus m),
      regs := (regs m)(SY7636A_REG_VCOM_ADJUST_CTRL_L := ucast (vcom div 10))\<rparr>)"
    using bus_ok_tl(2) [of 1 m] by simp
  have v: "(vcom div 10) AND 0x1ff = vcom div 10"
    using assms(1) by (intro small_and_1ff div10_le)
  from assms(1) have r: "\<not> 5000 < vcom" by (simp add: not_less)
  show ?thesis
    unfolding set_vcom_voltage_mv_def Let_def v
    by (simp add: r regmap_write_ok [OF 1] regmap_write_ok [OF 2])
qed

lemma bus_ok_mono: "k \<le> n \<Longrightarrow> bus_ok n m \<Longrightarrow> bus_ok k m"
  unfolding bus_ok_def using set_take_subset_set_take [of k n "bus m"] by auto

lemma bus_ok_tl_tl:
  "bus_ok (Suc (Suc n)) m \<Longrightarrow> bus_ok n (m\<lparr>bus := tl (tl (bus m)), regs := f\<rparr>)"
  using bus_ok_tl(1) [of "Suc n" m] bus_ok_tl(2) [of n "m\<lparr>bus := tl (bus m)\<rparr>" f] by simp

lemma reg_pair_value:
  assumes "(v :: u32) \<le> 500"
  shows "uint (ucast v :: u8) + 256 * uint (ucast (drop_bit 8 v) :: u8) = uint v"
proof -
  from assms have "uint v \<le> 500" by (simp add: word_le_def)
  then have "uint v div 256 \<le> 1"
    using zdiv_mono1 [of "uint v" 500 256] by simp
  moreover have "0 \<le> uint v div 256"
    by (simp add: pos_imp_zdiv_nonneg_iff)
  ultimately have "uint v div 256 mod 256 = uint v div 256"
    by (intro mod_pos_pos_trivial) simp_all
  then have "uint v mod 256 + 256 * (uint v div 256 mod 256) = uint v"
    by simp
  then show ?thesis
    by (simp add: unsigned_ucast_eq unsigned_take_bit_eq unsigned_drop_bit_eq take_bit_eq_mod drop_bit_eq_div uint_div)
qed

subsection \<open>The two VCOM getters\<close>

text \<open>
  Claim C9. When both register reads succeed on the same register contents, the getter
  of the regulator driver returns exactly 1000 times what the getter of the
  multi-function device driver returns: the first is the 9-bit value of the register
  pair times 10000, the second the same 9-bit value times 10.
\<close>

theorem vcom_getters_differ_by_1000:
  assumes "bus_ok 2 m"
  shows "fst (sy7636a_get_vcom_voltage_mv m) = 1000 * fst (get_vcom_voltage_mv m) \<and>
         fst (sy7636a_get_vcom_voltage_op m) = 1000 * fst (get_vcom_voltage_mv m) \<and>
         fst (get_vcom_voltage_mv m) =
           uint ((ucast (regs m SY7636A_REG_VCOM_ADJUST_CTRL_L) OR
                  push_bit 8 (ucast (regs m SY7636A_REG_VCOM_ADJUST_CTRL_H)) :: u32) AND 0x1FF) * 10 \<and>
         fst (sy7636a_get_vcom_voltage_mv m) =
           uint ((ucast (regs m SY7636A_REG_VCOM_ADJUST_CTRL_L) OR
                  push_bit 8 (ucast (regs m SY7636A_REG_VCOM_ADJUST_CTRL_H)) :: u32) AND 0x1FF) * 10000"
  by (simp add: sy7636a_get_vcom_voltage_op_def get_vcom_voltage_mv_ok [OF assms]
      sy7636a_get_vcom_voltage_mv_ok [OF assms])

theorem vcom_getters_differ_by_1000_witness:
  "fst (get_vcom_voltage_mv
     \<lparr>regs = (\<lambda>r. 0)(SY7636A_REG_VCOM_ADJUST_CTRL_L := 0x7B), bus = []\<rparr>) = 1230 \<and>
   fst (sy7636a_get_vcom_voltage_mv
     \<lparr>regs = (\<lambda>r. 0)(SY7636A_REG_VCOM_ADJUST_CTRL_L := 0x7B), bus = []\<rparr>) = 1230000"
proof -
  let ?m = "\<lparr>regs = (\<lambda>r. 0)(SY7636A_REG_VCOM_ADJUST_CTRL_L := 0x7B), bus = []\<rparr>"
  have ok: "bus_ok 2 ?m" by (simp add: bus_ok_def)
  have v: "uint ((ucast (regs ?m SY7636A_REG_VCOM_ADJUST_CTRL_L) OR
                  push_bit 8 (ucast (regs ?m SY7636A_REG_VCOM_ADJUST_CTRL_H)) :: u32) AND 0x1FF) = 123"
    by simp
  from vcom_getters_differ_by_1000 [OF ok]
  have "fst (sy7636a_get_vcom_voltage_mv ?m) = 1000 * fst (get_vcom_voltage_mv ?m)"
    and "fst (get_vcom_voltage_mv ?m) =
           uint ((ucast (regs ?m SY7636A_REG_VCOM_ADJUST_CTRL_L) OR
                  push_bit 8 (ucast (regs ?m SY7636A_REG_VCOM_ADJUST_CTRL_H)) :: u32) AND 0x1FF) * 10"
    by blast+
  then show ?thesis unfolding v by simp
qed

subsection \<open>Setting and reading back the VCOM voltage\<close>

text \<open>
  Claim C3. For every request of at most 5000 mV, with the bus transactions succeeding,
  \<^verbatim>\<open>set_vcom_voltage_mv\<close> returns 0 and leaves the value \<open>vcom div 10\<close> in the register
  pair (low byte in the first register, the ninth bit in the second), and
  \<^verbatim>\<open>get_vcom_voltage_mv\<close> then returns \<open>vcom div 10\<close> times 10: at most the request and
  less than 10 mV below it. A request of 1234 reads back as 1230.
\<close>

theorem vcom_set_get_roundtrip:
  assumes "vcom \<le> 5000" and "bus_ok 4 m"
  shows "fst (set_vcom_voltage_mv m vcom) = 0 \<and>
         uint (regs (snd (set_vcom_voltage_mv m vcom)) SY7636A_REG_VCOM_ADJUST_CTRL_L) +
           256 * uint (regs (snd (set_vcom_voltage_mv m vcom)) SY7636A_REG_VCOM_ADJUST_CTRL_H) =
           uint vcom div 10 \<and>
         fst (get_vcom_voltage_mv (snd (set_vcom_voltage_mv m vcom))) = uint vcom div 10 * 10 \<and>
         uint vcom - 10 < fst (get_vcom_voltage_mv (snd (set_vcom_voltage_mv m vcom))) \<and>
         fst (get_vcom_voltage_mv (snd (set_vcom_voltage_mv m vcom))) \<le> uint vcom \<and>
         (vcom = 1234 \<longrightarrow> fst (get_vcom_voltage_mv (snd (set_vcom_voltage_mv m vcom))) = 1230)"
proof -
  let ?v = "vcom div 10"
  let ?m' = "m\<lparr>bus := tl (tl (bus m)),
                regs := (regs m)
                  (SY7636A_REG_VCOM_ADJUST_CTRL_L := ucast ?v,
                   SY7636A_REG_VCOM_ADJUST_CTRL_H := ucast (drop_bit 8 ?v))\<rparr>"
  from assms(2) have ok2: "bus_ok 2 m" by (rule bus_ok_mono [rotated]) simp
  from assms(2) have ok2': "bus_ok 2 ?m'"
    using bus_ok_tl_tl [of 2 m] by (simp add: eval_nat_numeral)
  have set_eq: "set_vcom_voltage_mv m vcom = (0, ?m')"
    by (rule set_vcom_voltage_mv_ok [OF assms(1) ok2])
  have v: "?v \<le> 500" by (rule div10_le [OF assms(1)])
  have uv: "uint ?v = uint vcom div 10" by (simp add: uint_div)
  have rb: "(ucast (ucast ?v :: u8) OR push_bit 8 (ucast (ucast (drop_bit 8 ?v) :: u8)) :: u32)
                AND 0x1FF = ?v"
    by (simp only: reg_pair_readback small_and_1ff [OF v])
  have get_eq: "fst (get_vcom_voltage_mv ?m') = uint vcom div 10 * 10"
    unfolding get_vcom_voltage_mv_ok [OF ok2'] using rb uv by simp
  have pair: "uint (regs ?m' SY7636A_REG_VCOM_ADJUST_CTRL_L) +
                256 * uint (regs ?m' SY7636A_REG_VCOM_ADJUST_CTRL_H) = uint vcom div 10"
    using reg_pair_value [OF v] uv by simp
  have lo: "uint vcom - 10 < uint vcom div 10 * 10" and hi: "uint vcom div 10 * 10 \<le> uint vcom"
    by presburger+
  show ?thesis
    unfolding set_eq using get_eq pair lo hi by auto
qed


theorem vcom_set_get_roundtrip_witness:
  "fst (set_vcom_voltage_mv \<lparr>regs = (\<lambda>r. 0), bus = []\<rparr> 1234) = 0 \<and>
   fst (get_vcom_voltage_mv (snd (set_vcom_voltage_mv \<lparr>regs = (\<lambda>r. 0), bus = []\<rparr> 1234))) = 1230"
proof -
  have r: "(1234 :: u32) \<le> 5000" by simp
  have ok: "bus_ok 4 \<lparr>regs = (\<lambda>r. 0), bus = []\<rparr>" by (simp add: bus_ok_def)
  from vcom_set_get_roundtrip [OF r ok] show ?thesis by simp
qed

subsection \<open>The range check of \<^verbatim>\<open>set_vcom_voltage_mv\<close>\<close>

lemma word_of_int_magnitude:
  "0 \<le> mag \<Longrightarrow> mag \<le> 5000 \<Longrightarrow> (word_of_int mag :: u32) \<le> 5000"
  by (simp add: word_le_def uint_word_of_int take_bit_int_eq_self)


text \<open>
  Claim C8. \<^verbatim>\<open>set_vcom_voltage_mv\<close> accepts every magnitude from 0 to 5000: with the
  two bus writes succeeding it returns 0 and has written both VCOM registers. Every
  larger magnitude, 5001 for one and also \<open>- 1\<close> (which as an \<^verbatim>\<open>unsigned int\<close> is the
  largest value), is rejected with \<open>- EINVAL\<close> and the register map is left untouched:
  no bus transaction takes place. \<^verbatim>\<open>vcom_store\<close>, which receives the negated
  magnitude, passes magnitudes from 0 to 5000 on to \<^verbatim>\<open>set_vcom_voltage_mv\<close>, where they
  pass the check, and rejects all others with \<open>- EINVAL\<close> before any write.
\<close>

theorem set_vcom_voltage_mv_range:
  "(vcom \<le> 5000 \<and> bus_ok 2 m \<longrightarrow>
      set_vcom_voltage_mv m vcom =
        (0, m\<lparr>bus := tl (tl (bus m)),
               regs := (regs m)
                 (SY7636A_REG_VCOM_ADJUST_CTRL_L := ucast (vcom div 10),
                  SY7636A_REG_VCOM_ADJUST_CTRL_H := ucast (drop_bit 8 (vcom div 10)))\<rparr>)) \<and>
   (5000 < vcom \<longrightarrow> set_vcom_voltage_mv m vcom = (- EINVAL, m)) \<and>
   set_vcom_voltage_mv m 5001 = (- EINVAL, m) \<and>
   set_vcom_voltage_mv m (- 1) = (- EINVAL, m) \<and>
   (0 \<le> mag \<and> mag \<le> 5000 \<longrightarrow>
      (word_of_int mag :: u32) \<le> 5000 \<and>
      vcom_store m (Inr (- mag)) count =
        (if fst (set_vcom_voltage_mv m (word_of_int mag)) \<noteq> 0
         then fst (set_vcom_voltage_mv m (word_of_int mag)) else count,
         snd (set_vcom_voltage_mv m (word_of_int mag)))) \<and>
   (mag < 0 \<or> 5000 < mag \<longrightarrow> vcom_store m (Inr (- mag)) count = (- EINVAL, m))"
proof (intro conjI impI)
  assume "vcom \<le> 5000 \<and> bus_ok 2 m"
  then show "set_vcom_voltage_mv m vcom =
        (0, m\<lparr>bus := tl (tl (bus m)),
               regs := (regs m)
                 (SY7636A_REG_VCOM_ADJUST_CTRL_L := ucast (vcom div 10),
                  SY7636A_REG_VCOM_ADJUST_CTRL_H := ucast (drop_bit 8 (vcom div 10)))\<rparr>)"
    by (simp add: set_vcom_voltage_mv_ok)
next
  assume "5000 < vcom"
  then show "set_vcom_voltage_mv m vcom = (- EINVAL, m)"
    by (simp add: set_vcom_voltage_mv_def)
next
  show "set_vcom_voltage_mv m 5001 = (- EINVAL, m)"
    by (simp add: set_vcom_voltage_mv_def)
next
  show "set_vcom_voltage_mv m (- 1) = (- EINVAL, m)"
    by (simp add: set_vcom_voltage_mv_def)
next
  assume "0 \<le> mag \<and> mag \<le> 5000"
  then show "(word_of_int mag :: u32) \<le> 5000"
    by (simp add: word_of_int_magnitude)
next
  assume "0 \<le> mag \<and> mag \<le> 5000"
  then show "vcom_store m (Inr (- mag)) count =
        (if fst (set_vcom_voltage_mv m (word_of_int mag)) \<noteq> 0
         then fst (set_vcom_voltage_mv m (word_of_int mag)) else count,
         snd (set_vcom_voltage_mv m (word_of_int mag)))"
    by (simp add: vcom_store_def split: prod.splits)
next
  assume "mag < 0 \<or> 5000 < mag"
  then show "vcom_store m (Inr (- mag)) count = (- EINVAL, m)"
    by (auto simp: vcom_store_def)
qed

theorem set_vcom_voltage_mv_range_witness:
  "set_vcom_voltage_mv \<lparr>regs = (\<lambda>r. 0xAA), bus = []\<rparr> 0 =
     (0, \<lparr>regs = (\<lambda>r. 0xAA)(SY7636A_REG_VCOM_ADJUST_CTRL_L := 0,
                                 SY7636A_REG_VCOM_ADJUST_CTRL_H := 0), bus = []\<rparr>) \<and>
   set_vcom_voltage_mv \<lparr>regs = (\<lambda>r. 0xAA), bus = []\<rparr> 5000 =
     (0, \<lparr>regs = (\<lambda>r. 0xAA)(SY7636A_REG_VCOM_ADJUST_CTRL_L := 0xF4,
                                 SY7636A_REG_VCOM_ADJUST_CTRL_H := 1), bus = []\<rparr>) \<and>
   set_vcom_voltage_mv \<lparr>regs = (\<lambda>r. 0xAA), bus = []\<rparr> 5002 =
     (- EINVAL, \<lparr>regs = (\<lambda>r. 0xAA), bus = []\<rparr>) \<and>
   vcom_store \<lparr>regs = (\<lambda>r. 0xAA), bus = []\<rparr> (Inr 1) 2 =
     (- EINVAL, \<lparr>regs = (\<lambda>r. 0xAA), bus = []\<rparr>)"
proof -
  let ?m = "\<lparr>regs = (\<lambda>r. 0xAA), bus = []\<rparr>"
  note t = set_vcom_voltage_mv_range
  have ok: "bus_ok 2 ?m" by (simp add: bus_ok_def)
  have a: "(0 :: u32) \<le> 5000 \<and> bus_ok 2 ?m" using ok by simp
  have b: "(5000 :: u32) \<le> 5000 \<and> bus_ok 2 ?m" using ok by simp
  have c: "(5000 :: u32) < 5002" by simp
  have d: "(- 1 :: int) < 0 \<or> 5000 < (- 1 :: int)" by simp
  from t [of 0 ?m] a have 1: "set_vcom_voltage_mv ?m 0 =
        (0, ?m\<lparr>bus := tl (tl (bus ?m)),
               regs := (regs ?m)
                 (SY7636A_REG_VCOM_ADJUST_CTRL_L := ucast (0 div 10 :: u32),
                  SY7636A_REG_VCOM_ADJUST_CTRL_H := ucast (drop_bit 8 (0 div 10 :: u32)))\<rparr>)"
    by blast
  from t [of 5000 ?m] b have 2: "set_vcom_voltage_mv ?m 5000 =
        (0, ?m\<lparr>bus := tl (tl (bus ?m)),
               regs := (regs ?m)
                 (SY7636A_REG_VCOM_ADJUST_CTRL_L := ucast (5000 div 10 :: u32),
                  SY7636A_REG_VCOM_ADJUST_CTRL_H := ucast (drop_bit 8 (5000 div 10 :: u32)))\<rparr>)"
    by blast
  from t [of 5002 ?m] c have 3: "set_vcom_voltage_mv ?m 5002 = (- EINVAL, ?m)"
    by blast
  from t [of _ ?m "- 1" 2] d have 4: "vcom_store ?m (Inr (- (- 1))) 2 = (- EINVAL, ?m)"
    by blast
  have e: "(ucast (5000 div 10 :: u32) :: u8) = 0xF4" "(ucast (drop_bit 8 (5000 div 10 :: u32)) :: u8) = 1"
    by simp_all
  from 1 2 3 4 show ?thesis unfolding e by simp
qed

subsection \<open>Decoding the fault flag register\<close>

lemma length_states: "length states = 16"
  by (simp add: states_def)


text \<open>
  Claim C6. With the read of the fault flag register succeeding, \<^verbatim>\<open>powergood_show\<close>
  reports bit 0 of the byte (\<open>ON\<close> when set, \<open>OFF\<close> otherwise) and \<^verbatim>\<open>state_show\<close> uses
  the byte shifted right by one as index into the table \<open>states\<close> of 16 entries: an index
  of 16 or more gives \<open>- EINVAL\<close> and no table access, a smaller one the entry followed
  by a newline. The byte \<open>0b00000011\<close> gives \<open>ON\<close> and \<open>UVP at VP rail\<close>.
\<close>

theorem fault_flag_decode:
  assumes "bus_ok 1 m"
  shows "fst (powergood_show m) =
           Inr ((if bit (regs m SY7636A_REG_FAULT_FLAG) 0 then ''ON'' else ''OFF'') @ [CHR 0x0A]) \<and>
         fst (state_show m) =
           (if 16 \<le> unat (regs m SY7636A_REG_FAULT_FLAG) div 2 then Inl (- EINVAL)
            else Inr (states ! (unat (regs m SY7636A_REG_FAULT_FLAG) div 2) @ [CHR 0x0A])) \<and>
         length states = 16 \<and>
         (regs m SY7636A_REG_FAULT_FLAG = 0b00000011 \<longrightarrow>
            fst (powergood_show m) = Inr (''ON'' @ [CHR 0x0A]) \<and>
            fst (state_show m) = Inr (''UVP at VP rail'' @ [CHR 0x0A]))"
proof -
  from assms have ok: "bus_ok (Suc 0) m" by simp
  have pg: "fst (powergood_show m) =
           Inr ((if bit (regs m SY7636A_REG_FAULT_FLAG) 0 then ''ON'' else ''OFF'') @ [CHR 0x0A])"
    by (simp add: powergood_show_def regmap_read_ok [OF ok] and1 Let_def)
  have st: "fst (state_show m) =
           (if 16 \<le> unat (regs m SY7636A_REG_FAULT_FLAG) div 2 then Inl (- EINVAL)
            else Inr (states ! (unat (regs m SY7636A_REG_FAULT_FLAG) div 2) @ [CHR 0x0A]))"
    by (simp add: state_show_def regmap_read_ok [OF ok] unat_shifted [unfolded One_nat_def] length_states Let_def)
  have sp: "regs m SY7636A_REG_FAULT_FLAG = 0b00000011 \<longrightarrow>
            fst (powergood_show m) = Inr (''ON'' @ [CHR 0x0A]) \<and>
            fst (state_show m) = Inr (''UVP at VP rail'' @ [CHR 0x0A])"
  proof
    assume b: "regs m SY7636A_REG_FAULT_FLAG = 0b00000011"
    have "states ! 1 = ''UVP at VP rail''" by (simp add: states_def)
    then show "fst (powergood_show m) = Inr (''ON'' @ [CHR 0x0A]) \<and>
            fst (state_show m) = Inr (''UVP at VP rail'' @ [CHR 0x0A])"
      unfolding pg st b by simp
  qed
  from pg st sp length_states show ?thesis by blast
qed

theorem fault_flag_decode_witness:
  "fst (powergood_show \<lparr>regs = (\<lambda>r. 0)(SY7636A_REG_FAULT_FLAG := 0b00000011), bus = []\<rparr>) =
     Inr (''ON'' @ [CHR 0x0A]) \<and>
   fst (state_show \<lparr>regs = (\<lambda>r. 0)(SY7636A_REG_FAULT_FLAG := 0b00000011), bus = []\<rparr>) =
     Inr (''UVP at VP rail'' @ [CHR 0x0A])"
proof -
  let ?m = "\<lparr>regs = (\<lambda>r. 0)(SY7636A_REG_FAULT_FLAG := 0b00000011), bus = []\<rparr>"
  have ok: "bus_ok 1 ?m" by (simp add: bus_ok_def)
  have b: "regs ?m SY7636A_REG_FAULT_FLAG = 0b00000011" by simp
  from fault_flag_decode [OF ok] b show ?thesis by blast
qed

subsection \<open>Enabling the regulator when power-good never comes\<close>

lemma regs_bus_next: "regs (snd (bus_next m)) = regs m"
  by (simp add: bus_next_def split: list.splits)

lemma update_bits_clear:
  "(ucast (ucast ((ucast (b :: u8) AND NOT k) OR (0 AND k) :: u32) :: u8) :: u32) AND k = 0"
  by (rule bit_word_eqI) (auto simp: bit_simps)

lemma update_bits_set:
  assumes "take_bit 8 k = k"
  shows "(ucast (ucast ((ucast (b :: u8) AND NOT k) OR (k AND k) :: u32) :: u8) :: u32) AND k = k"
proof (rule bit_word_eqI)
  fix n :: nat
  assume "n < LENGTH(32)"
  have "bit k n \<Longrightarrow> n < 8"
    using assms by (metis bit_take_bit_iff)
  then show "bit ((ucast (ucast ((ucast b AND NOT k) OR (k AND k) :: u32) :: u8) :: u32) AND k) n
             = bit k n"
    by (auto simp: bit_simps)
qed

lemma enable_mask_byte: "take_bit 8 enable_mask = enable_mask"
  by (simp add: enable_mask_def SY7636A_OPERATION_MODE_CRL_ONOFF_def)

lemma enable_mask_nonzero: "enable_mask \<noteq> 0"
  by (simp add: enable_mask_def SY7636A_OPERATION_MODE_CRL_ONOFF_def)

lemma regulator_enable_regmap_result:
  assumes "regulator_enable_regmap m = (0, m1)"
  shows "ucast (regs m1 enable_reg) AND enable_mask = enable_mask"
    and "r \<noteq> enable_reg \<Longrightarrow> regs m1 r = regs m r"
proof -
  from assms have m1: "regs m1 = (regs m)
      (enable_reg := ucast ((ucast (regs m enable_reg) AND NOT enable_mask) OR
                            (enable_mask AND enable_mask)))"
    using regs_bus_next [of m]
    by (auto simp: regulator_enable_regmap_def regmap_update_bits_def
        split: prod.splits if_splits)
  show "ucast (regs m1 enable_reg) AND enable_mask = enable_mask"
    unfolding m1 using update_bits_set [OF enable_mask_byte] by simp
  show "r \<noteq> enable_reg \<Longrightarrow> regs m1 r = regs m r"
    unfolding m1 by simp
qed

lemma regulator_disable_regmap_result:
  assumes "regulator_disable_regmap m = (0, m1)"
  shows "ucast (regs m1 enable_reg) AND enable_mask = 0"
    and "r \<noteq> enable_reg \<Longrightarrow> regs m1 r = regs m r"
proof -
  from assms have m1: "regs m1 = (regs m)
      (enable_reg := ucast ((ucast (regs m enable_reg) AND NOT enable_mask) OR
                            (0 AND enable_mask)))"
    using regs_bus_next [of m]
    by (auto simp: regulator_disable_regmap_def regmap_update_bits_def
        split: prod.splits if_splits)
  show "ucast (regs m1 enable_reg) AND enable_mask = 0"
    unfolding m1 using update_bits_clear [of "regs m enable_reg" enable_mask] by simp
  show "r \<noteq> enable_reg \<Longrightarrow> regs m1 r = regs m r"
    unfolding m1 by simp
qed


text \<open>
  Claim C4, as the driver implements it. When the enable write succeeds and the
  power-good line reads 0 at each of the 500 polls, \<^verbatim>\<open>sy7636a_enable_regulator_pgood\<close>
  runs \<^verbatim>\<open>sy7636a_disable_regulator\<close> on the register map and returns \<open>- ETIME\<close>; the one
  message it logs carries the elapsed time and no iteration count. The value returned
  by the disable path is not looked at: the enable bit is clear afterwards (and
  \<^verbatim>\<open>sy7636a_regulator_is_enabled\<close> then returns 0) when the disable write succeeds.
\<close>

theorem enable_timeout_disables:
  assumes "fst (regulator_enable_regmap m) = 0" and "\<forall>i<500. gpio i = 0"
  shows "sy7636a_enable_regulator_pgood m gpio t0 t1 =
           (- ETIME, snd (sy7636a_disable_regulator (snd (regulator_enable_regmap m))),
            [Power_good_signal_timeout (t1 - t0)]) \<and>
         (fst (sy7636a_disable_regulator (snd (regulator_enable_regmap m))) = 0 \<longrightarrow>
            ucast (regs (fst (snd (sy7636a_enable_regulator_pgood m gpio t0 t1))) enable_reg)
              AND enable_mask = 0 \<and>
            (bus_ok 1 (fst (snd (sy7636a_enable_regulator_pgood m gpio t0 t1))) \<longrightarrow>
               fst (sy7636a_regulator_is_enabled
                     (fst (snd (sy7636a_enable_regulator_pgood m gpio t0 t1)))) = 0))"
proof -
  obtain m1 where en: "regulator_enable_regmap m = (0, m1)"
    using assms(1) by (cases "regulator_enable_regmap m") simp
  obtain r m2 where dis: "sy7636a_disable_regulator m1 = (r, m2)"
    by (cases "sy7636a_disable_regulator m1")
  from assms(2) have poll: "pgood_poll gpio 500 0 0 = Loop_end 0 500"
    by (intro pgood_poll_all_zero) auto
  have res: "sy7636a_enable_regulator_pgood m gpio t0 t1 =
               (- ETIME, m2, [Power_good_signal_timeout (t1 - t0)])"
    unfolding sy7636a_enable_regulator_pgood_def en poll by (simp add: dis)
  have off: "ucast (regs m2 enable_reg) AND enable_mask = 0" if "r = 0"
    using that dis regulator_disable_regmap_result(1) [of m1 m2]
    by (simp add: sy7636a_disable_regulator_def)
  have rd: "fst (sy7636a_regulator_is_enabled m2) = 0" if "r = 0" and "bus_ok 1 m2"
  proof -
    from that(2) have ok: "bus_ok (Suc 0) m2" by simp
    show ?thesis
      using off [OF that(1)]
      by (simp add: sy7636a_regulator_is_enabled_def regulator_is_enabled_regmap_def
          regmap_read_ok [OF ok])
  qed
  show ?thesis unfolding res en using off rd by (simp add: dis)
qed

theorem enable_timeout_disables_witness:
  "sy7636a_enable_regulator_pgood \<lparr>regs = (\<lambda>r. 0), bus = []\<rparr> (\<lambda>n. 0) 1000 1075 =
     (- ETIME,
      snd (sy7636a_disable_regulator (snd (regulator_enable_regmap \<lparr>regs = (\<lambda>r. 0), bus = []\<rparr>))),
      [Power_good_signal_timeout 75]) \<and>
   ucast (regs (fst (snd (sy7636a_enable_regulator_pgood
                            \<lparr>regs = (\<lambda>r. 0), bus = []\<rparr> (\<lambda>n. 0) 1000 1075))) enable_reg)
     AND enable_mask = 0 \<and>
   fst (sy7636a_regulator_is_enabled
          (fst (snd (sy7636a_enable_regulator_pgood
                       \<lparr>regs = (\<lambda>r. 0), bus = []\<rparr> (\<lambda>n. 0) 1000 1075)))) = 0"
proof -
  let ?m = "\<lparr>regs = (\<lambda>r. 0), bus = []\<rparr>"
  have en: "fst (regulator_enable_regmap ?m) = 0"
    by (simp add: regulator_enable_regmap_def regmap_update_bits_def bus_next_def)
  have gp: "\<forall>i<500. (\<lambda>n::nat. 0::int) i = 0" by simp
  have dis: "fst (sy7636a_disable_regulator (snd (regulator_enable_regmap ?m))) = 0"
    by (simp add: sy7636a_disable_regulator_def regulator_disable_regmap_def
        regulator_enable_regmap_def regmap_update_bits_def bus_next_def)
  have ok: "bus_ok 1 (snd (sy7636a_disable_regulator (snd (regulator_enable_regmap ?m))))"
    by (simp add: sy7636a_disable_regulator_def regulator_disable_regmap_def
        regulator_enable_regmap_def regmap_update_bits_def bus_next_def bus_ok_def)
  note t = enable_timeout_disables [OF en gp, of 1000 1075]
  from t have res: "sy7636a_enable_regulator_pgood ?m (\<lambda>n. 0) 1000 1075 =
     (- ETIME, snd (sy7636a_disable_regulator (snd (regulator_enable_regmap ?m))),
      [Power_good_signal_timeout (1075 - 1000)])"
    by (rule conjunct1)
  from t dis ok res show ?thesis by simp
qed

text \<open>
  A disable write that fails: the enable write goes through, the line reads 0 for all 500
  polls, and the bus rejects the disable write. The driver still returns \<open>- ETIME\<close>, the
  only message is the timeout with the elapsed time, and the enable bit is still set.
\<close>

theorem enable_timeout_with_failed_disable:
  "fst (sy7636a_enable_regulator_pgood
          \<lparr>regs = (\<lambda>r. 0), bus = [0, - EIO]\<rparr> (\<lambda>n. 0) 1000 1075) = - ETIME \<and>
   snd (snd (sy7636a_enable_regulator_pgood
          \<lparr>regs = (\<lambda>r. 0), bus = [0, - EIO]\<rparr> (\<lambda>n. 0) 1000 1075)) =
     [Power_good_signal_timeout 75] \<and>
   regs (fst (snd (sy7636a_enable_regulator_pgood
          \<lparr>regs = (\<lambda>r. 0), bus = [0, - EIO]\<rparr> (\<lambda>n. 0) 1000 1075)))
     SY7636A_REG_OPERATION_MODE_CRL = 0x80 \<and>
   fst (sy7636a_regulator_is_enabled (fst (snd (sy7636a_enable_regulator_pgood
          \<lparr>regs = (\<lambda>r. 0), bus = [0, - EIO]\<rparr> (\<lambda>n. 0) 1000 1075)))) = 1"
proof -
  have poll: "pgood_poll (\<lambda>n. 0) 500 0 0 = Loop_end 0 500"
    by (intro pgood_poll_all_zero) auto
  have res: "sy7636a_enable_regulator_pgood
          \<lparr>regs = (\<lambda>r. 0), bus = [0, - EIO]\<rparr> (\<lambda>n. 0) 1000 1075 =
        (- ETIME, \<lparr>regs = (\<lambda>r. 0)(SY7636A_REG_OPERATION_MODE_CRL := 0x80), bus = []\<rparr>,
         [Power_good_signal_timeout 75])"
    unfolding sy7636a_enable_regulator_pgood_def poll
    by (simp add: sy7636a_disable_regulator_def regulator_disable_regmap_def
        regulator_enable_regmap_def regmap_update_bits_def bus_next_def EIO_def
        enable_reg_def enable_mask_def SY7636A_OPERATION_MODE_CRL_ONOFF_def)
  show ?thesis
    unfolding res
    by (simp add: sy7636a_regulator_is_enabled_def regulator_is_enabled_regmap_def
        regmap_read_def bus_next_def enable_reg_def enable_mask_def
        SY7636A_OPERATION_MODE_CRL_ONOFF_def)
qed

end
